theory Spec2Isabelle
  imports Complex_Main
begin

section \<open>The rate limiter and request dispatcher of osu/asyncio/http.py\<close>

text \<open>
  The module holds two classes: \<^verbatim>\<open>RateLimitHandler\<close>, a sliding-window limiter over
  a list of request timestamps, and \<^verbatim>\<open>AsynchronousHTTPHandler\<close>, whose
  \<^verbatim>\<open>_make_request\<close> checks authentication and scope, waits on the limiter, sends the
  request and records the usage.

  Timestamps are the values of \<^verbatim>\<open>time.perf_counter()\<close>. They are modelled as exact
  reals: the rounding of Python's floats is outside the model. Every call of
  \<^verbatim>\<open>perf_counter\<close> is a separate reading of the clock: the clock is a function from
  the number of readings made so far to the value read, and the state counts the
  readings.
\<close>

subsection \<open>Exceptions\<close>

datatype exn =
    ScopeException string
  | IndexError
  | AttributeError
  | TypeError
  | HTTPError int
  | JSONDecodeError
  | TransportError string

subsection \<open>State\<close>

text \<open>The fields of \<^verbatim>\<open>RateLimitHandler\<close>.\<close>

record rate_limit_handler =
  wait_limit :: real
  limit :: int
  last_request :: real
  requests :: "real list"

text \<open>Python values a caller can pass as a header value; \<open>py_str\<close> is \<^verbatim>\<open>str\<close>.\<close>

datatype pyval = PyNone | PyStr string | PyBool bool

fun py_str :: "pyval \<Rightarrow> string" where
  "py_str PyNone = ''None''"
| "py_str (PyStr s) = s"
| "py_str (PyBool b) = (if b then ''True'' else ''False'')"

text \<open>The arguments of one call of the transport (\<^verbatim>\<open>requests.get\<close> and its siblings).\<close>

record request =
  url :: string
  headers :: "string \<rightharpoonup> string"
  data :: "(string \<times> string) list"
  stream :: bool
  params :: "(string \<times> string) list"

text \<open>
  What an invocation does to the outside, in order: a suspension in
  \<^verbatim>\<open>asyncio.sleep\<close> for the given number of seconds, and a call of the transport with
  the verb's name and the request.
\<close>

datatype event = Sleep real | Send string request

text \<open>
  The mutable state: the limiter, the number of clock readings made so far, and the
  events so far (oldest first).
\<close>

record world =
  rate_limit :: rate_limit_handler
  ticks :: nat
  trace :: "event list"

type_synonym clock = "nat \<Rightarrow> real"

subsection \<open>RateLimitHandler\<close>

text \<open>
  \<^verbatim>\<open>__init__\<close>: one reading of the clock; \<open>last_request\<close> is that reading minus the
  wait limit, the history is empty. The result is the limiter and the new number of
  readings.
\<close>

definition RateLimitHandler_init :: "clock \<Rightarrow> nat \<Rightarrow> real \<Rightarrow> int \<Rightarrow> rate_limit_handler \<times> nat" where
  "RateLimitHandler_init clk n request_wait_limit limit_per_minute =
     (\<lparr>wait_limit = request_wait_limit,
       limit = limit_per_minute,
       last_request = clk n - request_wait_limit,
       requests = []\<rparr>, Suc n)"

text \<open>
  \<^verbatim>\<open>request_used\<close>: two readings of the clock, the first appended to the history, the
  second stored in \<open>last_request\<close>.
\<close>

definition request_used :: "clock \<Rightarrow> world \<Rightarrow> world" where
  "request_used clk w =
     (let rl = rate_limit w;
          n = ticks w;
          rl1 = rl\<lparr>requests := requests rl @ [clk n]\<rparr>;
          rl2 = rl1\<lparr>last_request := clk (Suc n)\<rparr>
      in w\<lparr>rate_limit := rl2, ticks := Suc (Suc n)\<rparr>)"

text \<open>
  The \<^verbatim>\<open>while True\<close> loop of \<^verbatim>\<open>reset\<close>, on the history and the number of readings.
  Each round evaluates \<^verbatim>\<open>self.requests[0]\<close>, which raises \<^verbatim>\<open>IndexError\<close> on an empty
  list, then reads the clock, then either pops the first entry and goes round again
  or leaves the loop. The history is returned also when the loop raises: the pops
  made before are not undone.
\<close>

fun reset_loop :: "clock \<Rightarrow> nat \<Rightarrow> real list \<Rightarrow> (exn + unit) \<times> real list \<times> nat" where
  "reset_loop clk n [] = (Inl IndexError, [], n)"
| "reset_loop clk n (r # rs) =
     (if r + 60 < clk n then reset_loop clk (Suc n) rs
      else (Inr (), r # rs, Suc n))"

definition reset :: "clock \<Rightarrow> world \<Rightarrow> (exn + unit) \<times> world" where
  "reset clk w =
     (if length (requests (rate_limit w)) = 0 then (Inr (), w)
      else (case reset_loop clk (ticks w) (requests (rate_limit w)) of
              (r, rs, n) \<Rightarrow> (r, w\<lparr>rate_limit := (rate_limit w)\<lparr>requests := rs\<rparr>, ticks := n\<rparr>)))"

text \<open>
  The property \<^verbatim>\<open>can_request\<close>: \<^verbatim>\<open>reset\<close>, then one reading of the clock, compared
  with \<open>last_request\<close>, and the length of the history compared with the limit.
\<close>

definition can_request :: "clock \<Rightarrow> world \<Rightarrow> (exn + bool) \<times> world" where
  "can_request clk w =
     (case reset clk w of
        (Inl e, w1) \<Rightarrow> (Inl e, w1)
      | (Inr _, w1) \<Rightarrow>
          (let rl = rate_limit w1;
               t = clk (ticks w1)
           in (Inr (t - last_request rl \<ge> wait_limit rl \<and> int (length (requests rl)) < limit rl),
               w1\<lparr>ticks := Suc (ticks w1)\<rparr>)))"

text \<open>
  \<^verbatim>\<open>asyncio.sleep(delay)\<close> returns for every delay; for a delay that is zero or
  negative it gives way to the event loop once and sets no timer, which the trace
  shows as a suspension of zero seconds.
\<close>

definition asyncio_sleep :: "real \<Rightarrow> world \<Rightarrow> world" where
  "asyncio_sleep delay w = w\<lparr>trace := trace w @ [Sleep (if delay \<le> 0 then 0 else delay)]\<rparr>"

text \<open>
  The first three lines of \<^verbatim>\<open>wait\<close>: the value of \<^verbatim>\<open>next_available_request\<close> handed
  to the sleep. One reading of the clock, and a second one together with
  \<^verbatim>\<open>self.requests[0]\<close> when the history has reached the limit.
\<close>

definition next_available_request :: "clock \<Rightarrow> world \<Rightarrow> (exn + real) \<times> world" where
  "next_available_request clk w =
     (let rl = rate_limit w;
          n = ticks w;
          nar = wait_limit rl - (clk n - last_request rl)
      in if int (length (requests rl)) \<ge> limit rl then
           (case requests rl of
              [] \<Rightarrow> (Inl IndexError, w\<lparr>ticks := Suc n\<rparr>)
            | r # _ \<Rightarrow> (Inr (max nar (r + 60 - clk (Suc n))), w\<lparr>ticks := Suc (Suc n)\<rparr>))
         else (Inr nar, w\<lparr>ticks := Suc n\<rparr>))"

definition wait :: "clock \<Rightarrow> world \<Rightarrow> (exn + unit) \<times> world" where
  "wait clk w =
     (case next_available_request clk w of
        (Inl e, w1) \<Rightarrow> (Inl e, w1)
      | (Inr d, w1) \<Rightarrow> (Inr (), asyncio_sleep d w1))"

subsection \<open>Collaborators of the dispatcher\<close>

text \<open>
  Modelled from the spec: the class \<^verbatim>\<open>Scope\<close> (imported by the package, not part of
  this module). The dispatcher reads the attribute \<^verbatim>\<open>scopes\<close> of an endpoint's scope,
  tests it with \<^verbatim>\<open>in\<close> against the scope of the credential, and formats the endpoint's
  scope into the error message. The spec has a scope as a named permission and a
  credential's scopes as a container of such names: \<open>scopes\<close> is the name, \<open>held\<close> the
  names that \<^verbatim>\<open>in\<close> finds, and \<^verbatim>\<open>str\<close> of a scope is its name.
\<close>

record scope =
  scopes :: string
  held :: "string list"

definition scope_contains :: "string \<Rightarrow> scope \<Rightarrow> bool" where
  "scope_contains item s = (item \<in> set (held s))"

definition scope_str :: "scope \<Rightarrow> string" where
  "scope_str s = scopes s"

text \<open>The credential (\<^verbatim>\<open>self.auth\<close>, \<^verbatim>\<open>self.client.auth\<close>): a token and the granted scope.\<close>

record auth_handler =
  token :: string
  auth_scope :: scope

text \<open>The endpoint descriptor passed as \<^verbatim>\<open>path\<close>.\<close>

record path_obj =
  path :: string
  requires_auth :: bool
  scope :: scope

text \<open>
  The handler's own fields read by the dispatcher: \<^verbatim>\<open>self.auth\<close> and
  \<^verbatim>\<open>self.client.auth\<close>, each possibly \<^verbatim>\<open>None\<close>. The limiter \<^verbatim>\<open>self.rate_limit\<close> is in
  the world.
\<close>

record http_handler =
  auth :: "auth_handler option"
  client_auth :: "auth_handler option"

text \<open>
  The response of the transport: the status code and the decoded body, \<open>None\<close> when
  the body is not JSON. \<^verbatim>\<open>raise_for_status\<close> and \<^verbatim>\<open>json\<close> are those of the
  \<^verbatim>\<open>requests\<close> library.
\<close>

record response =
  status_code :: int
  json_body :: "string option"

definition raise_for_status :: "response \<Rightarrow> exn + unit" where
  "raise_for_status r =
     (if 400 \<le> status_code r \<and> status_code r < 600 then Inl (HTTPError (status_code r))
      else Inr ())"

definition response_json :: "response \<Rightarrow> exn + string" where
  "response_json r = (case json_body r of None \<Rightarrow> Inl JSONDecodeError | Some j \<Rightarrow> Inr j)"

text \<open>
  What the module takes from outside: the clock, the transport
  (\<^verbatim>\<open>getattr(requests, method)\<close>, which may raise instead of answering) and the
  constant \<^verbatim>\<open>base_url\<close>.
\<close>

record env =
  perf_counter :: clock
  transport :: "string \<Rightarrow> request \<Rightarrow> exn + response"
  base_url :: string

subsection \<open>AsynchronousHTTPHandler\<close>

text \<open>
  \<^verbatim>\<open>get_headers\<close>: the two fixed headers, then the keyword arguments whose value is
  not \<^verbatim>\<open>None\<close> (a later key of a dict display replaces an earlier one), then the
  authorization header when \<open>requires_auth\<close> holds. Reading \<^verbatim>\<open>self.auth.token\<close> raises
  \<^verbatim>\<open>AttributeError\<close> when \<^verbatim>\<open>self.auth\<close> is \<^verbatim>\<open>None\<close>.
\<close>

definition base_headers :: "string \<rightharpoonup> string" where
  "base_headers = [''Content-Type'' \<mapsto> ''application/json'', ''Accept'' \<mapsto> ''application/json'']"

definition kwargs_headers :: "(string \<rightharpoonup> pyval) \<Rightarrow> (string \<rightharpoonup> string)" where
  "kwargs_headers kwargs =
     (\<lambda>key. case kwargs key of
               None \<Rightarrow> None
             | Some v \<Rightarrow> if v \<noteq> PyNone then Some (py_str v) else None)"

definition get_headers :: "http_handler \<Rightarrow> bool \<Rightarrow> (string \<rightharpoonup> pyval) \<Rightarrow> exn + (string \<rightharpoonup> string)" where
  "get_headers h req_auth kwargs =
     (let hs = base_headers ++ kwargs_headers kwargs
      in if req_auth then
           (case auth h of
              None \<Rightarrow> Inl AttributeError
            | Some a \<Rightarrow> Inr (hs(''Authorization'' \<mapsto> ''Bearer '' @ token a)))
         else Inr hs)"

text \<open>Lines 34 and 35 of \<^verbatim>\<open>_make_request\<close>: the rate gate.\<close>

definition rate_gate :: "clock \<Rightarrow> world \<Rightarrow> (exn + unit) \<times> world" where
  "rate_gate clk w =
     (case can_request clk w of
        (Inl e, w1) \<Rightarrow> (Inl e, w1)
      | (Inr ready, w1) \<Rightarrow> if \<not> ready then wait clk w1 else (Inr (), w1))"

text \<open>
  Lines 37 to 39: the scope check. \<^verbatim>\<open>and\<close> does not evaluate its right operand when
  \<open>requires_auth\<close> is false.
\<close>

definition auth_message :: string where
  "auth_message = ''You need to be authenticated to do this action.''"

definition scope_message :: "scope \<Rightarrow> string" where
  "scope_message s =
     ''You don'' @ [CHR 0x27] @ ''t have the '' @ scope_str s @ '' scope, which is required to do this action.''"

definition scope_check :: "http_handler \<Rightarrow> path_obj \<Rightarrow> exn + unit" where
  "scope_check h p =
     (let scope_required = scope p
      in if requires_auth p then
           (case client_auth h of
              None \<Rightarrow> Inl AttributeError
            | Some a \<Rightarrow>
                if \<not> scope_contains (scopes scope_required) (auth_scope a)
                then Inl (ScopeException (scope_message scope_required))
                else Inr ())
         else Inr ())"

text \<open>
  Lines 41 to 45: the headers, the call of the transport, the usage record, the status
  check and the decoding. The call \<^verbatim>\<open>self.get_headers(path.requires_auth, **headers)\<close>
  raises \<^verbatim>\<open>TypeError\<close> when the caller's headers have a key that names a parameter of
  \<^verbatim>\<open>get_headers\<close>.
\<close>

definition send_and_record ::
  "env \<Rightarrow> http_handler \<Rightarrow> string \<Rightarrow> path_obj \<Rightarrow> (string \<times> string) list \<Rightarrow> (string \<rightharpoonup> pyval) \<Rightarrow> bool \<Rightarrow>
   (string \<times> string) list \<Rightarrow> world \<Rightarrow> (exn + string) \<times> world" where
  "send_and_record e h method p dat hdrs strm kwargs w =
     (if hdrs ''requires_auth'' \<noteq> None \<or> hdrs ''self'' \<noteq> None then (Inl TypeError, w)
      else
        (case get_headers h (requires_auth p) hdrs of
           Inl x \<Rightarrow> (Inl x, w)
         | Inr hs \<Rightarrow>
             (let req = \<lparr>url = base_url e @ path p, headers = hs, data = dat,
                         stream = strm, params = kwargs\<rparr>;
                  w1 = w\<lparr>trace := trace w @ [Send method req]\<rparr>
              in case transport e method req of
                   Inl x \<Rightarrow> (Inl x, w1)
                 | Inr resp \<Rightarrow>
                     (let w2 = request_used (perf_counter e) w1
                      in case raise_for_status resp of
                           Inl x \<Rightarrow> (Inl x, w2)
                         | Inr _ \<Rightarrow>
                             (case response_json resp of
                                Inl x \<Rightarrow> (Inl x, w2)
                              | Inr j \<Rightarrow> (Inr j, w2))))))"

text \<open>\<^verbatim>\<open>_make_request\<close>, with the defaults of \<open>headers\<close> and \<open>data\<close> for \<^verbatim>\<open>None\<close>.\<close>

definition make_request ::
  "env \<Rightarrow> http_handler \<Rightarrow> string \<Rightarrow> path_obj \<Rightarrow> (string \<times> string) list option \<Rightarrow>
   (string \<rightharpoonup> pyval) option \<Rightarrow> bool \<Rightarrow> (string \<times> string) list \<Rightarrow> world \<Rightarrow> (exn + string) \<times> world" where
  "make_request e h method p data_arg headers_arg strm kwargs w =
     (let hdrs = (case headers_arg of None \<Rightarrow> Map.empty | Some x \<Rightarrow> x);
          dat = (case data_arg of None \<Rightarrow> [] | Some d \<Rightarrow> d)
      in if requires_auth p \<and> client_auth h = None then (Inl (ScopeException auth_message), w)
         else
           (case rate_gate (perf_counter e) w of
              (Inl x, w1) \<Rightarrow> (Inl x, w1)
            | (Inr _, w1) \<Rightarrow>
                (case scope_check h p of
                   Inl x \<Rightarrow> (Inl x, w1)
                 | Inr _ \<Rightarrow> send_and_record e h method p dat hdrs strm kwargs w1)))"

text \<open>The entry points \<^verbatim>\<open>get\<close>, \<^verbatim>\<open>post\<close>, \<^verbatim>\<open>delete\<close>, \<^verbatim>\<open>patch\<close> and \<^verbatim>\<open>put\<close>.\<close>

type_synonym verb_call =
  "env \<Rightarrow> http_handler \<Rightarrow> path_obj \<Rightarrow> (string \<times> string) list option \<Rightarrow>
   (string \<rightharpoonup> pyval) option \<Rightarrow> bool \<Rightarrow> (string \<times> string) list \<Rightarrow> world \<Rightarrow> (exn + string) \<times> world"

definition http_get :: "verb_call" where
  "http_get e h = make_request e h ''get''"

definition http_post :: "verb_call" where
  "http_post e h = make_request e h ''post''"

definition http_delete :: "verb_call" where
  "http_delete e h = make_request e h ''delete''"

definition http_patch :: "verb_call" where
  "http_patch e h = make_request e h ''patch''"

definition http_put :: "verb_call" where
  "http_put e h = make_request e h ''put''"

subsection \<open>The limiter's contract in the spec's words\<close>

text \<open>
  The wait of \<open>timeUntilReady\<close> as the spec states it, at one current time \<open>now\<close>:
  the minimum interval minus the time since the last request, raised to the time
  until the oldest entry leaves the window when the history has reached the limit.
\<close>

definition timeUntilReady_spec :: "real \<Rightarrow> rate_limit_handler \<Rightarrow> real" where
  "timeUntilReady_spec now rl =
     (if int (length (requests rl)) < limit rl
      then wait_limit rl - (now - last_request rl)
      else max (wait_limit rl - (now - last_request rl)) (hd (requests rl) + 60 - now))"

text \<open>
  The merged headers as the spec states them: a caller's value that is not null
  replaces the base value of its key, every other key keeps its base value.
\<close>

definition merged_spec :: "(string \<rightharpoonup> pyval) \<Rightarrow> (string \<rightharpoonup> string)" where
  "merged_spec kwargs key =
     (case kwargs key of
        Some v \<Rightarrow> if v = PyNone then base_headers key else Some (py_str v)
      | None \<Rightarrow> base_headers key)"

subsection \<open>Sequences of limiter operations\<close>




text \<open>The world right after the constructor, which made reading number \<open>n\<close> of the clock.\<close>

definition new_world :: "clock \<Rightarrow> nat \<Rightarrow> real \<Rightarrow> int \<Rightarrow> world" where
  "new_world clk n request_wait_limit limit_per_minute =
     \<lparr>rate_limit = fst (RateLimitHandler_init clk n request_wait_limit limit_per_minute),
      ticks = snd (RateLimitHandler_init clk n request_wait_limit limit_per_minute),
      trace = []\<rparr>"


subsection \<open>Concrete inputs\<close>

text \<open>
  A credential with the scope \<open>public\<close>, a handler holding it, an endpoint it may call
  and one it may not, a clock that always reads \<open>t\<close> with a transport that always
  answers with the given status, and a world whose limiter allows 60 requests a
  minute, one second apart.
\<close>

definition ex_auth :: auth_handler where
  "ex_auth = \<lparr>token = ''tok'', auth_scope = \<lparr>scopes = ''public'', held = [''public'']\<rparr>\<rparr>"

definition ex_handler :: http_handler where
  "ex_handler = \<lparr>auth = Some ex_auth, client_auth = Some ex_auth\<rparr>"

text \<open>The same credential and handler with the empty string as the token.\<close>

definition ex_empty_auth :: auth_handler where
  "ex_empty_auth = \<lparr>token = [], auth_scope = \<lparr>scopes = ''public'', held = [''public'']\<rparr>\<rparr>"

definition ex_empty_handler :: http_handler where
  "ex_empty_handler = \<lparr>auth = Some ex_empty_auth, client_auth = Some ex_empty_auth\<rparr>"

definition ex_public_path :: path_obj where
  "ex_public_path =
     \<lparr>path = ''me'', requires_auth = True, scope = \<lparr>scopes = ''public'', held = [''public'']\<rparr>\<rparr>"

definition ex_chat_path :: path_obj where
  "ex_chat_path =
     \<lparr>path = ''chat/new'', requires_auth = True,
      scope = \<lparr>scopes = ''chat.write'', held = [''chat.write'']\<rparr>\<rparr>"

definition ex_env :: "real \<Rightarrow> int \<Rightarrow> env" where
  "ex_env t status =
     \<lparr>perf_counter = (\<lambda>_. t),
      transport = (\<lambda>method req. Inr \<lparr>status_code = status, json_body = Some ''{}''\<rparr>),
      base_url = ''https://osu.ppy.sh/api/v2/''\<rparr>"

definition ex_world :: "real \<Rightarrow> real list \<Rightarrow> world" where
  "ex_world lr hist =
     \<lparr>rate_limit = \<lparr>wait_limit = 1, limit = 60, last_request = lr, requests = hist\<rparr>,
      ticks = 0, trace = []\<rparr>"

text \<open>A clock that reads 0 three times and 100 from then on.\<close>

definition ex_clock :: clock where
  "ex_clock n = (if n < 3 then 0 else 100)"

section \<open>Properties of the rate limiter\<close>

subsection \<open>The pruning pass\<close>

text \<open>
  With a clock that stands at \<open>t\<close>, the loop of \<^verbatim>\<open>reset\<close> drops the stale entries at the
  front and stops at the first entry that is not stale. When every entry is stale it
  drops them all, evaluates \<^verbatim>\<open>self.requests[0]\<close> on the empty list and raises.
\<close>

lemma reset_loop_const:
  "reset_loop (\<lambda>_. t) n rs =
     (if \<forall>r\<in>set rs. r + 60 < t then (Inl IndexError, [], n + length rs)
      else (Inr (), dropWhile (\<lambda>r. r + 60 < t) rs,
            Suc (n + length (takeWhile (\<lambda>r. r + 60 < t) rs))))"
  by (induction rs arbitrary: n) auto

text \<open>
  C1: the pruning pass run by a readiness check removes the stale entries from the
  front of the history, stops at the first entry that is not stale and returns
  normally, also when every entry is stale. The code does not: the emptiness test
  of \<^verbatim>\<open>reset\<close> stands before the loop, not in it. On the history \<open>[0]\<close> at time 100
  the loop pops the only entry, goes round again and raises \<^verbatim>\<open>IndexError\<close>.
\<close>

theorem reset_all_stale_raises:
  "reset (perf_counter (ex_env 100 200)) (ex_world 0 [0])
     = (Inl IndexError, (ex_world 0 [])\<lparr>ticks := 1\<rparr>)"
  by (simp add: reset_def ex_env_def ex_world_def)

subsection \<open>A new limiter is ready\<close>

text \<open>
  C10: a limiter constructed with a limit of at least one request a minute has
  \<open>last_request\<close> at the time of construction minus the wait limit and an empty
  history, and \<^verbatim>\<open>can_request\<close> read right after the constructor is true. The clock does
  not run backwards between the constructor's reading and the check's.
\<close>

theorem fresh_limiter_can_request:
  assumes "1 \<le> limit_per_minute" and "clk n \<le> clk (Suc n)"
  shows "RateLimitHandler_init clk n request_wait_limit limit_per_minute =
           (\<lparr>wait_limit = request_wait_limit, limit = limit_per_minute,
             last_request = clk n - request_wait_limit, requests = []\<rparr>, Suc n)
       \<and> can_request clk (new_world clk n request_wait_limit limit_per_minute)
           = (Inr True, (new_world clk n request_wait_limit limit_per_minute)\<lparr>ticks := Suc (Suc n)\<rparr>)"
  using assms by (simp add: RateLimitHandler_init_def new_world_def can_request_def reset_def)

theorem fresh_limiter_can_request_witness:
  "(1::int) \<le> 60 \<and> ex_clock 0 \<le> ex_clock (Suc 0)
   \<and> rate_limit (new_world ex_clock 0 1 60)
       = \<lparr>wait_limit = 1, limit = 60, last_request = - 1, requests = []\<rparr>
   \<and> can_request ex_clock (new_world ex_clock 0 1 60)
       = (Inr True, (new_world ex_clock 0 1 60)\<lparr>ticks := 2\<rparr>)"
proof -
  have l: "(1::int) \<le> 60" by simp
  have c: "ex_clock 0 \<le> ex_clock (Suc 0)" by (simp add: ex_clock_def)
  have two: "Suc (Suc 0) = 2" by simp
  have "rate_limit (new_world ex_clock 0 1 60)
       = \<lparr>wait_limit = 1, limit = 60, last_request = - 1, requests = []\<rparr>"
    by (simp add: new_world_def RateLimitHandler_init_def ex_clock_def)
  with fresh_limiter_can_request [OF l c, of 1] l c show ?thesis
    unfolding two by blast
qed

section \<open>Properties of the dispatcher\<close>

subsection \<open>A call without a credential\<close>

lemma make_request_no_credential:
  "requires_auth p \<Longrightarrow> client_auth h = None \<Longrightarrow>
   make_request e h m p dat hdrs s kw w = (Inl (ScopeException auth_message), w)"
  by (simp add: make_request_def)

text \<open>
  C6, as the spec states it: a call on an endpoint that requires authentication, made
  when no credential is present, fails with the exception that asks for
  authentication, sends nothing and leaves the limiter as it was; and the spec counts
  a credential whose token is empty as absent. Line 31 tests only whether
  \<^verbatim>\<open>self.client.auth\<close> is \<^verbatim>\<open>None\<close>: with a credential whose token is the empty string the
  call passes the test, is sent with the header \<open>Authorization: Bearer\<close> and an empty
  token, returns the decoded answer, and the usage is recorded in the limiter.
\<close>

theorem empty_token_is_sent:
  "token ex_empty_auth = []
   \<and> make_request (ex_env 100 200) ex_empty_handler ''get'' ex_public_path None None False []
        (ex_world 0 [50])
     = (Inr ''{}'',
        \<lparr>rate_limit = \<lparr>wait_limit = 1, limit = 60, last_request = 100, requests = [50, 100]\<rparr>,
         ticks = 4,
         trace = [Send ''get''
                   \<lparr>url = ''https://osu.ppy.sh/api/v2/me'',
                    headers = (base_headers ++ kwargs_headers Map.empty)
                                (''Authorization'' \<mapsto> ''Bearer ''),
                    data = [], stream = False, params = []\<rparr>]\<rparr>)"
proof -
  have gate: "rate_gate (perf_counter (ex_env 100 200)) (ex_world 0 [50])
                = (Inr (), (ex_world 0 [50])\<lparr>ticks := 2\<rparr>)"
    by (simp add: rate_gate_def can_request_def reset_def ex_env_def ex_world_def)
  have "make_request (ex_env 100 200) ex_empty_handler ''get'' ex_public_path None None False []
        (ex_world 0 [50])
     = (Inr ''{}'',
        \<lparr>rate_limit = \<lparr>wait_limit = 1, limit = 60, last_request = 100, requests = [50, 100]\<rparr>,
         ticks = 4,
         trace = [Send ''get''
                   \<lparr>url = ''https://osu.ppy.sh/api/v2/me'',
                    headers = (base_headers ++ kwargs_headers Map.empty)
                                (''Authorization'' \<mapsto> ''Bearer ''),
                    data = [], stream = False, params = []\<rparr>]\<rparr>)"
    by (simp add: make_request_def gate scope_check_def scope_contains_def send_and_record_def
        get_headers_def ex_empty_handler_def ex_empty_auth_def ex_public_path_def Let_def)
       (simp add: ex_env_def ex_world_def raise_for_status_def response_json_def
        request_used_def Let_def)
  then show ?thesis by (simp add: ex_empty_auth_def)
qed

text \<open>
  C6, amended: a call on an endpoint that requires authentication, made when the
  client's credential is \<^verbatim>\<open>None\<close>, fails with the exception that asks for
  authentication. The world it returns is the world it was given: no call of the
  transport is added to the trace, and the history and \<open>last_request\<close> of the limiter
  are what they were. A credential that is present counts as present whatever its
  token is.
\<close>

theorem unauthenticated_call_rejected:
  assumes "requires_auth p" and "client_auth h = None"
  shows "make_request e h m p dat hdrs s kw w = (Inl (ScopeException auth_message), w)
       \<and> auth_message = ''You need to be authenticated to do this action.''"
  using assms by (simp add: make_request_no_credential auth_message_def)

theorem unauthenticated_call_rejected_witness:
  "requires_auth ex_public_path \<and> client_auth (ex_handler\<lparr>client_auth := None\<rparr>) = None
   \<and> make_request (ex_env 100 200) (ex_handler\<lparr>client_auth := None\<rparr>) ''get'' ex_public_path
        None None False [] (ex_world 0 [0])
      = (Inl (ScopeException ''You need to be authenticated to do this action.''), ex_world 0 [0])"
proof -
  have r: "requires_auth ex_public_path" by (simp add: ex_public_path_def)
  have c: "client_auth (ex_handler\<lparr>client_auth := None\<rparr>) = None" by simp
  from unauthenticated_call_rejected [OF r c, of "ex_env 100 200" "''get''" None None False "[]"
      "ex_world 0 [0]"] r c
  show ?thesis by simp
qed

subsection \<open>The wait before the next request\<close>

text \<open>
  C5: for a limiter whose limit is at least one, the duration that \<^verbatim>\<open>wait\<close> computes
  at the time \<open>now\<close> is the wait limit minus the time since the last request when the
  history is shorter than the limit, and the larger of that and the time until the
  oldest entry is 60 seconds old when the history has reached the limit. The
  computation raises nothing, \<^verbatim>\<open>wait\<close> leaves the limiter as it was, and a duration
  that is zero or negative is slept as no time at all. Both readings of the clock
  that \<^verbatim>\<open>wait\<close> makes give \<open>now\<close>.
\<close>

theorem wait_duration:
  assumes "1 \<le> limit (rate_limit w)"
    and "clk (ticks w) = now" and "clk (Suc (ticks w)) = now"
  shows "fst (next_available_request clk w) = Inr (timeUntilReady_spec now (rate_limit w))
       \<and> fst (wait clk w) = Inr ()
       \<and> rate_limit (snd (wait clk w)) = rate_limit w
       \<and> trace (snd (wait clk w))
           = trace w @ [Sleep (max 0 (timeUntilReady_spec now (rate_limit w)))]"
proof (cases "requests (rate_limit w)")
  case Nil
  with assms show ?thesis
    by (simp add: next_available_request_def wait_def timeUntilReady_spec_def asyncio_sleep_def
        Let_def max_def)
next
  case (Cons r rs)
  with assms show ?thesis
    by (simp add: next_available_request_def wait_def timeUntilReady_spec_def asyncio_sleep_def
        Let_def max_def)
qed

theorem wait_duration_witness:
  "(1::int) \<le> 2
   \<and> fst (next_available_request (\<lambda>_. 30)
        \<lparr>rate_limit = \<lparr>wait_limit = 1, limit = 2, last_request = 20, requests = [10, 20]\<rparr>,
         ticks = 0, trace = []\<rparr>) = Inr 40
   \<and> trace (snd (wait (\<lambda>_. 30)
        \<lparr>rate_limit = \<lparr>wait_limit = 1, limit = 2, last_request = 20, requests = [10, 20]\<rparr>,
         ticks = 0, trace = []\<rparr>)) = [Sleep 40]
   \<and> fst (next_available_request (\<lambda>_. 30)
        \<lparr>rate_limit = \<lparr>wait_limit = 1, limit = 2, last_request = 20, requests = [20]\<rparr>,
         ticks = 0, trace = []\<rparr>) = Inr (- 9)
   \<and> fst (wait (\<lambda>_. 30)
        \<lparr>rate_limit = \<lparr>wait_limit = 1, limit = 2, last_request = 20, requests = [20]\<rparr>,
         ticks = 0, trace = []\<rparr>) = Inr ()
   \<and> trace (snd (wait (\<lambda>_. 30)
        \<lparr>rate_limit = \<lparr>wait_limit = 1, limit = 2, last_request = 20, requests = [20]\<rparr>,
         ticks = 0, trace = []\<rparr>)) = [Sleep 0]"
proof -
  let ?full = "\<lparr>rate_limit = \<lparr>wait_limit = 1, limit = 2, last_request = 20, requests = [10, 20]\<rparr>,
         ticks = 0, trace = []\<rparr>"
  let ?part = "\<lparr>rate_limit = \<lparr>wait_limit = 1, limit = 2, last_request = 20, requests = [20]\<rparr>,
         ticks = 0, trace = []\<rparr>"
  have l: "(1::int) \<le> 2" by simp
  have f: "timeUntilReady_spec 30 (rate_limit ?full) = 40"
    by (simp add: timeUntilReady_spec_def)
  have p: "timeUntilReady_spec 30 (rate_limit ?part) = - 9"
    by (simp add: timeUntilReady_spec_def)
  from wait_duration [of ?full "\<lambda>_. 30" 30] f
  have a: "fst (next_available_request (\<lambda>_. 30) ?full) = Inr 40"
    "trace (snd (wait (\<lambda>_. 30) ?full)) = [Sleep 40]"
    by simp_all
  from wait_duration [of ?part "\<lambda>_. 30" 30] p
  have b: "fst (next_available_request (\<lambda>_. 30) ?part) = Inr (- 9)"
    "fst (wait (\<lambda>_. 30) ?part) = Inr ()"
    "trace (snd (wait (\<lambda>_. 30) ?part)) = [Sleep 0]"
    by simp_all
  from l a b show ?thesis by blast
qed

subsection \<open>Header construction\<close>

lemma merged_spec_eq: "base_headers ++ kwargs_headers kw = merged_spec kw"
  by (rule ext) (simp add: map_add_def kwargs_headers_def merged_spec_def split: option.splits)

text \<open>
  C7: for every set of headers given by the caller, \<^verbatim>\<open>get_headers\<close> returns the base
  headers \<open>Content-Type: application/json\<close> and \<open>Accept: application/json\<close> merged with
  the caller's, where a caller's value replaces the base value of its key only when
  it is not null. When authentication is required (and the handler holds a
  credential to read the token from), the header \<open>Authorization\<close> of the result is
  \<open>Bearer\<close> followed by the token, whatever the caller gave under that key.
\<close>

theorem get_headers_merge:
  "get_headers h False kw = Inr (merged_spec kw)
   \<and> (auth h = Some a \<longrightarrow>
        get_headers h True kw
          = Inr ((merged_spec kw)(''Authorization'' \<mapsto> ''Bearer '' @ token a)))
   \<and> base_headers ''Content-Type'' = Some ''application/json''
   \<and> base_headers ''Accept'' = Some ''application/json''
   \<and> dom base_headers = {''Content-Type'', ''Accept''}"
proof -
  have plain: "get_headers h False kw = Inr (merged_spec kw)"
    by (simp add: get_headers_def merged_spec_eq)
  have authd: "auth h = Some a \<longrightarrow>
        get_headers h True kw
          = Inr ((merged_spec kw)(''Authorization'' \<mapsto> ''Bearer '' @ token a))"
    by (simp add: get_headers_def merged_spec_eq)
  have base: "base_headers ''Content-Type'' = Some ''application/json''"
    "base_headers ''Accept'' = Some ''application/json''"
    "dom base_headers = {''Content-Type'', ''Accept''}"
    by (auto simp add: base_headers_def)
  from plain authd base show ?thesis by blast
qed

theorem get_headers_merge_witness:
  "auth ex_handler = Some ex_auth
   \<and> get_headers ex_handler True
         [''Authorization'' \<mapsto> PyStr ''mine'', ''Content-Type'' \<mapsto> PyStr ''text/plain'',
          ''Accept'' \<mapsto> PyNone]
     = Inr [''Content-Type'' \<mapsto> ''text/plain'', ''Accept'' \<mapsto> ''application/json'',
            ''Authorization'' \<mapsto> ''Bearer tok'']"
proof -
  let ?kw = "[''Authorization'' \<mapsto> PyStr ''mine'', ''Content-Type'' \<mapsto> PyStr ''text/plain'',
          ''Accept'' \<mapsto> PyNone]"
  have a: "auth ex_handler = Some ex_auth" by (simp add: ex_handler_def)
  have m: "(merged_spec ?kw)(''Authorization'' \<mapsto> ''Bearer '' @ token ex_auth) =
       [''Content-Type'' \<mapsto> ''text/plain'', ''Accept'' \<mapsto> ''application/json'',
            ''Authorization'' \<mapsto> ''Bearer tok'']"
    by (rule ext) (simp add: merged_spec_def base_headers_def ex_auth_def)
  from get_headers_merge [of ex_handler ?kw ex_auth] a m show ?thesis by simp
qed

subsection \<open>What an invocation does to the trace\<close>

lemma reset_trace: "trace (snd (reset clk w)) = trace w"
  by (simp add: reset_def split: prod.splits)

lemma can_request_trace: "trace (snd (can_request clk w)) = trace w"
proof (cases "reset clk w")
  case (Pair r w1)
  with reset_trace [of clk w] have "trace w1 = trace w" by simp
  with Pair show ?thesis
    by (cases r) (simp_all add: can_request_def Let_def)
qed

lemma wait_trace: "\<exists>xs. trace (snd (wait clk w)) = trace w @ xs"
  by (cases "requests (rate_limit w)")
     (simp_all add: wait_def next_available_request_def asyncio_sleep_def Let_def)

lemma rate_gate_trace: "\<exists>xs. trace (snd (rate_gate clk w)) = trace w @ xs"
proof (cases "can_request clk w")
  case (Pair r w1)
  with can_request_trace [of clk w] have t: "trace w1 = trace w" by simp
  show ?thesis
  proof (cases r)
    case (Inl x)
    with Pair t show ?thesis by (simp add: rate_gate_def)
  next
    case (Inr ready)
    with Pair t wait_trace [of clk w1] show ?thesis
      by (cases ready) (auto simp add: rate_gate_def)
  qed
qed

lemma request_used_trace: "trace (request_used clk w) = trace w"
  by (simp add: request_used_def Let_def)

subsection \<open>Usage is recorded for every response\<close>

text \<open>
  When lines 41 to 45 have called the transport and it has answered, the usage has
  been recorded once, and the result is what the status check and the decoding
  make of the response.
\<close>

lemma send_and_record_answered:
  assumes run: "send_and_record e h m p dat hdrs s kw w1 = (out, w')"
    and sent: "trace w' = trace w1 @ [Send m req]"
    and answered: "transport e m req = Inr resp"
  shows "w' = request_used (perf_counter e) (w1\<lparr>trace := trace w1 @ [Send m req]\<rparr>)
       \<and> out = (case raise_for_status resp of Inl x \<Rightarrow> Inl x | Inr _ \<Rightarrow> response_json resp)"
proof (cases "hdrs ''requires_auth'' \<noteq> None \<or> hdrs ''self'' \<noteq> None")
  case True
  with run have "w' = w1" by (simp add: send_and_record_def)
  with sent show ?thesis by simp
next
  case noclash: False
  show ?thesis
  proof (cases "get_headers h (requires_auth p) hdrs")
    case (Inl x)
    with run noclash have "w' = w1" by (simp add: send_and_record_def)
    with sent show ?thesis by simp
  next
    case (Inr hs)
    let ?req = "\<lparr>url = base_url e @ path p, headers = hs, data = dat, stream = s, params = kw\<rparr>"
    have tr: "trace w' = trace w1 @ [Send m ?req]"
      using run noclash Inr
      by (auto simp add: send_and_record_def Let_def request_used_trace
          split: sum.splits)
    with sent have req: "req = ?req" by simp
    with answered have ans: "transport e m ?req = Inr resp" by simp
    from run noclash Inr ans req show ?thesis
      by (auto simp add: send_and_record_def Let_def split: sum.splits)
  qed
qed

text \<open>
  C8: an invocation that receives a response from the transport calls
  \<^verbatim>\<open>request_used\<close> exactly once, also when the status of the response is an error. The
  invocation has called the transport with \<open>req\<close> after the rate gate, and the
  transport has answered with \<open>resp\<close>. Then the final world is the world after the
  gate and the call with \<^verbatim>\<open>request_used\<close> applied to it once: the history is the history
  left by the gate with one entry appended, \<open>last_request\<close> is the reading after that
  one, and a status from 400 to 599 makes the invocation fail with the HTTP error.
\<close>

theorem usage_recorded_once:
  assumes run: "make_request e h m p dat hdrs s kw w = (out, w')"
    and sent: "trace w' = trace (snd (rate_gate (perf_counter e) w)) @ [Send m req]"
    and answered: "transport e m req = Inr resp"
  shows "w' = request_used (perf_counter e)
                ((snd (rate_gate (perf_counter e) w))
                   \<lparr>trace := trace (snd (rate_gate (perf_counter e) w)) @ [Send m req]\<rparr>)
       \<and> requests (rate_limit w') =
           requests (rate_limit (snd (rate_gate (perf_counter e) w)))
             @ [perf_counter e (ticks (snd (rate_gate (perf_counter e) w)))]
       \<and> last_request (rate_limit w') =
           perf_counter e (Suc (ticks (snd (rate_gate (perf_counter e) w))))
       \<and> (if 400 \<le> status_code resp \<and> status_code resp < 600
          then out = Inl (HTTPError (status_code resp))
          else out = response_json resp)"
proof -
  let ?clk = "perf_counter e"
  obtain g w1 where gate: "rate_gate ?clk w = (g, w1)" by (cases "rate_gate ?clk w")
  from rate_gate_trace [of ?clk w] gate obtain xs where xs: "trace w1 = trace w @ xs" by auto
  from sent gate have sent1: "trace w' = trace w1 @ [Send m req]" by simp
  have neq: "w' \<noteq> w" "w' \<noteq> w1"
    using sent1 xs by auto
  let ?hdrs = "case hdrs of None \<Rightarrow> Map.empty | Some x \<Rightarrow> x"
  let ?dat = "case dat of None \<Rightarrow> [] | Some d \<Rightarrow> d"
  have sr: "send_and_record e h m p ?dat ?hdrs s kw w1 = (out, w')"
    using run gate neq
    by (auto simp add: make_request_def Let_def split: if_splits sum.splits)
  from send_and_record_answered [OF sr sent1 answered]
  have w': "w' = request_used ?clk (w1\<lparr>trace := trace w1 @ [Send m req]\<rparr>)"
    and out: "out = (case raise_for_status resp of Inl x \<Rightarrow> Inl x | Inr _ \<Rightarrow> response_json resp)"
    by simp_all
  from w' have "requests (rate_limit w') = requests (rate_limit w1) @ [?clk (ticks w1)]"
    and "last_request (rate_limit w') = ?clk (Suc (ticks w1))"
    by (simp_all add: request_used_def Let_def)
  moreover from out have "if 400 \<le> status_code resp \<and> status_code resp < 600
          then out = Inl (HTTPError (status_code resp))
          else out = response_json resp"
    by (simp add: raise_for_status_def)
  ultimately show ?thesis using gate w' by simp
qed

theorem usage_recorded_once_witness:
  "fst (make_request (ex_env 100 404) ex_handler ''get'' ex_public_path None None False []
          (ex_world 0 [50]))
     = Inl (HTTPError 404)
   \<and> requests (rate_limit (snd (make_request (ex_env 100 404) ex_handler ''get'' ex_public_path
          None None False [] (ex_world 0 [50]))))
     = [50, 100]
   \<and> last_request (rate_limit (snd (make_request (ex_env 100 404) ex_handler ''get''
          ex_public_path None None False [] (ex_world 0 [50]))))
     = 100"
proof -
  let ?e = "ex_env 100 404"
  let ?run = "make_request ?e ex_handler ''get'' ex_public_path None None False [] (ex_world 0 [50])"
  let ?req = "\<lparr>url = ''https://osu.ppy.sh/api/v2/me'',
               headers = (base_headers ++ kwargs_headers Map.empty)(''Authorization'' \<mapsto> ''Bearer tok''),
               data = [], stream = False, params = []\<rparr>"
  let ?resp = "\<lparr>status_code = 404, json_body = Some ''{}''\<rparr>"
  have gate: "rate_gate (perf_counter ?e) (ex_world 0 [50]) = (Inr (), (ex_world 0 [50])\<lparr>ticks := 2\<rparr>)"
    by (simp add: rate_gate_def can_request_def reset_def ex_env_def ex_world_def)
  have run: "?run = (fst ?run, snd ?run)" by simp
  have tr: "trace (snd ?run) = [Send ''get'' ?req]"
    by (simp add: make_request_def gate scope_check_def scope_contains_def send_and_record_def
        get_headers_def request_used_trace ex_handler_def ex_auth_def ex_public_path_def
        Let_def)
       (simp add: ex_env_def ex_world_def raise_for_status_def request_used_trace)
  have sent: "trace (snd ?run) = trace (snd (rate_gate (perf_counter ?e) (ex_world 0 [50]))) @ [Send ''get'' ?req]"
    unfolding tr gate by (simp add: ex_world_def)
  have answered: "transport ?e ''get'' ?req = Inr ?resp"
    by (simp add: ex_env_def)
  let ?g = "(ex_world 0 [50])\<lparr>ticks := 2\<rparr>"
  note u = usage_recorded_once [OF run sent answered, unfolded gate snd_conv]
  from u have "requests (rate_limit (snd ?run))
      = requests (rate_limit ?g) @ [perf_counter ?e (ticks ?g)]" by (rule conjunct1 [OF conjunct2])
  also have "\<dots> = [50, 100]" by (simp add: ex_env_def ex_world_def)
  finally have r: "requests (rate_limit (snd ?run)) = [50, 100]" .
  from u have "last_request (rate_limit (snd ?run)) = perf_counter ?e (Suc (ticks ?g))"
    by (rule conjunct1 [OF conjunct2 [OF conjunct2]])
  also have "\<dots> = 100" by (simp add: ex_env_def)
  finally have l: "last_request (rate_limit (snd ?run)) = 100" .
  from u have "if 400 \<le> status_code ?resp \<and> status_code ?resp < 600
          then fst ?run = Inl (HTTPError (status_code ?resp))
          else fst ?run = response_json ?resp"
    by (rule conjunct2 [OF conjunct2 [OF conjunct2]])
  then have o: "fst ?run = Inl (HTTPError 404)" by simp
  from o r l show ?thesis by blast
qed

subsection \<open>The order of the checks and the rate gate\<close>

lemma make_request_scope_failure:
  assumes "\<not> (requires_auth p \<and> client_auth h = None)" and "scope_check h p = Inl x"
    and "rate_gate (perf_counter e) w = (Inr u, w1)"
  shows "make_request e h m p dat hdrs s kw w = (Inl x, w1)"
  using assms by (auto simp add: make_request_def Let_def)

lemma scope_check_missing:
  assumes "requires_auth p" and "client_auth h = Some a"
    and "\<not> scope_contains (scopes (scope p)) (auth_scope a)"
  shows "scope_check h p = Inl (ScopeException (scope_message (scope p)))"
  using assms by (simp add: scope_check_def)

text \<open>
  With the check for a credential passed and the rate gate returned, a credential
  that lacks the scope of the endpoint makes the invocation fail with the scope
  exception, whose message holds the name of the scope, in the world the gate left:
  nothing is sent.
\<close>

lemma make_request_missing_scope:
  assumes "requires_auth p" and "client_auth h = Some a"
    and "\<not> scope_contains (scopes (scope p)) (auth_scope a)"
    and "rate_gate (perf_counter e) w = (Inr u, w1)"
  shows "make_request e h m p dat hdrs s kw w
           = (Inl (ScopeException (scope_message (scope p))), w1)"
proof -
  from assms(2) have "\<not> (requires_auth p \<and> client_auth h = None)" by simp
  from make_request_scope_failure [OF this scope_check_missing [OF assms(1-3)] assms(4)]
  show ?thesis .
qed

text \<open>
  C2, as the spec states it: both the check for a credential and the check of the
  scope come before the rate gate, so an invocation that fails either never
  suspends in the limiter's wait. In the code the scope is checked in line 38, after
  the gate of lines 34 and 35. Here the credential lacks the scope of the endpoint
  and the limiter is not ready (the last request was half a second ago): the
  invocation sleeps for half a second and then fails with the scope exception.
\<close>

theorem scope_failure_after_sleep:
  "fst (make_request (ex_env (201/2) 200) ex_handler ''post'' ex_chat_path None None False []
          (ex_world 100 [100]))
     = Inl (ScopeException (scope_message (scope ex_chat_path)))
   \<and> trace (snd (make_request (ex_env (201/2) 200) ex_handler ''post'' ex_chat_path None None
          False [] (ex_world 100 [100])))
     = [Sleep (1/2)]"
  by (simp add: make_request_def rate_gate_def can_request_def reset_def wait_def
      next_available_request_def asyncio_sleep_def scope_check_def scope_contains_def
      ex_env_def ex_handler_def ex_auth_def ex_chat_path_def ex_world_def Let_def)

text \<open>
  C2, amended: the check for a credential comes before the rate gate, and an
  invocation that fails it returns the world it was given, without suspending. The
  check of the scope comes after the rate gate and is the only check after it: an
  invocation that fails it has first read the limiter, and when the limiter was not
  ready it has slept for the duration the limiter computed before it fails; when the
  limiter was ready it fails in the world the readiness check left.
\<close>

theorem checks_around_rate_gate:
  "(requires_auth p \<and> client_auth h = None \<longrightarrow>
      make_request e h m p dat hdrs s kw w = (Inl (ScopeException auth_message), w))
   \<and> (\<not> (requires_auth p \<and> client_auth h = None) \<and> scope_check h p = Inl x
       \<and> can_request (perf_counter e) w = (Inr False, w0)
       \<and> next_available_request (perf_counter e) w0 = (Inr d, w1) \<longrightarrow>
      make_request e h m p dat hdrs s kw w = (Inl x, asyncio_sleep d w1))
   \<and> (\<not> (requires_auth p \<and> client_auth h = None) \<and> scope_check h p = Inl x
       \<and> can_request (perf_counter e) w = (Inr True, w0) \<longrightarrow>
      make_request e h m p dat hdrs s kw w = (Inl x, w0))"
proof (intro conjI impI)
  assume "requires_auth p \<and> client_auth h = None"
  then show "make_request e h m p dat hdrs s kw w = (Inl (ScopeException auth_message), w)"
    by (simp add: make_request_no_credential)
next
  assume a: "\<not> (requires_auth p \<and> client_auth h = None) \<and> scope_check h p = Inl x
       \<and> can_request (perf_counter e) w = (Inr False, w0)
       \<and> next_available_request (perf_counter e) w0 = (Inr d, w1)"
  then have "rate_gate (perf_counter e) w = (Inr (), asyncio_sleep d w1)"
    by (simp add: rate_gate_def wait_def)
  with a show "make_request e h m p dat hdrs s kw w = (Inl x, asyncio_sleep d w1)"
    by (simp add: make_request_scope_failure)
next
  assume a: "\<not> (requires_auth p \<and> client_auth h = None) \<and> scope_check h p = Inl x
       \<and> can_request (perf_counter e) w = (Inr True, w0)"
  then have "rate_gate (perf_counter e) w = (Inr (), w0)"
    by (simp add: rate_gate_def)
  with a show "make_request e h m p dat hdrs s kw w = (Inl x, w0)"
    by (simp add: make_request_scope_failure)
qed

theorem checks_around_rate_gate_witness:
  "make_request (ex_env 100 200) (ex_handler\<lparr>client_auth := None\<rparr>) ''post'' ex_chat_path
        None None False [] (ex_world 100 [100])
     = (Inl (ScopeException auth_message), ex_world 100 [100])
   \<and> scope_check ex_handler ex_chat_path = Inl (ScopeException (scope_message (scope ex_chat_path)))
   \<and> can_request (perf_counter (ex_env (201/2) 200)) (ex_world 100 [100])
     = (Inr False, (ex_world 100 [100])\<lparr>ticks := 2\<rparr>)
   \<and> make_request (ex_env (201/2) 200) ex_handler ''post'' ex_chat_path None None False []
        (ex_world 100 [100])
     = (Inl (ScopeException (scope_message (scope ex_chat_path))),
        (ex_world 100 [100])\<lparr>ticks := 3, trace := [Sleep (1/2)]\<rparr>)
   \<and> can_request (perf_counter (ex_env 100 200)) (ex_world 0 [50])
     = (Inr True, (ex_world 0 [50])\<lparr>ticks := 2\<rparr>)
   \<and> make_request (ex_env 100 200) ex_handler ''post'' ex_chat_path None None False []
        (ex_world 0 [50])
     = (Inl (ScopeException (scope_message (scope ex_chat_path))), (ex_world 0 [50])\<lparr>ticks := 2\<rparr>)"
proof -
  let ?x = "ScopeException (scope_message (scope ex_chat_path))"
  let ?late = "ex_env (201/2) 200"
  let ?busy = "ex_world 100 [100]"
  let ?idle = "ex_world 0 [50]"
  have na: "requires_auth ex_chat_path \<and> client_auth (ex_handler\<lparr>client_auth := None\<rparr>) = None"
    by (simp add: ex_chat_path_def)
  have cred: "\<not> (requires_auth ex_chat_path \<and> client_auth ex_handler = None)"
    by (simp add: ex_handler_def)
  have sc: "scope_check ex_handler ex_chat_path = Inl ?x"
    by (simp add: scope_check_def scope_contains_def ex_handler_def ex_auth_def ex_chat_path_def)
  have nr: "can_request (perf_counter ?late) ?busy = (Inr False, ?busy\<lparr>ticks := 2\<rparr>)"
    by (simp add: can_request_def reset_def ex_env_def ex_world_def)
  have d: "next_available_request (perf_counter ?late) (?busy\<lparr>ticks := 2\<rparr>)
             = (Inr (1/2), ?busy\<lparr>ticks := 3\<rparr>)"
    by (simp add: next_available_request_def ex_env_def ex_world_def)
  have sl: "asyncio_sleep (1/2) (?busy\<lparr>ticks := 3\<rparr>) = ?busy\<lparr>ticks := 3, trace := [Sleep (1/2)]\<rparr>"
    by (simp add: asyncio_sleep_def ex_world_def)
  have rd: "can_request (perf_counter (ex_env 100 200)) ?idle = (Inr True, ?idle\<lparr>ticks := 2\<rparr>)"
    by (simp add: can_request_def reset_def ex_env_def ex_world_def)
  from checks_around_rate_gate [of ex_chat_path "ex_handler\<lparr>client_auth := None\<rparr>"
      "ex_env 100 200" "''post''" None None False "[]" ?busy] na
  have one: "make_request (ex_env 100 200) (ex_handler\<lparr>client_auth := None\<rparr>) ''post'' ex_chat_path
        None None False [] ?busy = (Inl (ScopeException auth_message), ?busy)"
    by blast
  from checks_around_rate_gate [of ex_chat_path ex_handler ?late "''post''" None None False "[]"
      ?busy ?x "?busy\<lparr>ticks := 2\<rparr>" "1/2" "?busy\<lparr>ticks := 3\<rparr>"] cred sc nr d
  have "make_request ?late ex_handler ''post'' ex_chat_path None None False [] ?busy
          = (Inl ?x, asyncio_sleep (1/2) (?busy\<lparr>ticks := 3\<rparr>))"
    by blast
  then have two: "make_request ?late ex_handler ''post'' ex_chat_path None None False [] ?busy
          = (Inl ?x, ?busy\<lparr>ticks := 3, trace := [Sleep (1/2)]\<rparr>)"
    unfolding sl .
  from checks_around_rate_gate [of ex_chat_path ex_handler "ex_env 100 200" "''post''" None None
      False "[]" ?idle ?x "?idle\<lparr>ticks := 2\<rparr>"] cred sc rd
  have three: "make_request (ex_env 100 200) ex_handler ''post'' ex_chat_path None None False []
        ?idle = (Inl ?x, ?idle\<lparr>ticks := 2\<rparr>)"
    by blast
  from one sc nr two rd three show ?thesis by blast
qed

text \<open>
  C3: an invocation on an endpoint that requires authentication, with a credential
  that lacks the scope of the endpoint, fails with the scope exception naming the
  scope, and sends nothing. The code does so only when the rate gate returns: the
  gate stands before the check of the scope, and on a history whose entries are all
  stale its pruning pass raises \<^verbatim>\<open>IndexError\<close>, which is what the invocation then fails
  with.
\<close>

theorem missing_scope_index_error:
  "\<not> scope_contains (scopes (scope ex_chat_path)) (auth_scope ex_auth)
   \<and> make_request (ex_env 100 200) ex_handler ''post'' ex_chat_path None None False []
        (ex_world 0 [0])
     = (Inl IndexError, (ex_world 0 [])\<lparr>ticks := 1\<rparr>)"
  by (simp add: make_request_def rate_gate_def can_request_def reset_def scope_contains_def
      ex_env_def ex_handler_def ex_auth_def ex_chat_path_def ex_world_def)

section \<open>Readiness and the invariants of the limiter\<close>

subsection \<open>The readiness check\<close>

text \<open>
  With a clock that stands at \<open>t\<close> and a history that is empty or keeps an entry
  that is not stale, \<^verbatim>\<open>can_request\<close> prunes the stale front of the history and answers
  with the two comparisons on what is left.
\<close>

lemma can_request_const:
  assumes "requests (rate_limit w) = [] \<or> (\<exists>r\<in>set (requests (rate_limit w)). \<not> r + 60 < t)"
  shows "fst (can_request (\<lambda>_. t) w)
           = Inr (t - last_request (rate_limit w) \<ge> wait_limit (rate_limit w)
                  \<and> int (length (dropWhile (\<lambda>r. r + 60 < t) (requests (rate_limit w))))
                      < limit (rate_limit w))
       \<and> requests (rate_limit (snd (can_request (\<lambda>_. t) w)))
           = dropWhile (\<lambda>r. r + 60 < t) (requests (rate_limit w))"
proof (cases "requests (rate_limit w) = []")
  case True
  then show ?thesis by (simp add: can_request_def reset_def Let_def)
next
  case False
  with assms have "\<not> (\<forall>r\<in>set (requests (rate_limit w)). r + 60 < t)" by blast
  with False show ?thesis
    by (simp add: can_request_def reset_def reset_loop_const Let_def)
qed

text \<open>
  C4: \<^verbatim>\<open>can_request\<close> prunes the stale history and then is true exactly when the time
  since the last request is at least the wait limit and fewer entries than the limit
  are left; so after uses at times up to \<open>tn\<close>, with fewer entries than the limit in
  the window, it is true at a later time \<open>t\<close> unless \<open>t - tn\<close> is below the wait limit.
  The code does not return at all when every entry of the history is stale: a limiter
  made at time 0 and used once at time 0 has the history \<open>[0]\<close>, and at time 100, where
  the answer is to be true, the pruning pass raises \<^verbatim>\<open>IndexError\<close>.
\<close>

theorem can_request_after_a_minute_raises:
  "requests (rate_limit (request_used ex_clock (new_world ex_clock 0 1 60))) = [0]
   \<and> last_request (rate_limit (request_used ex_clock (new_world ex_clock 0 1 60))) = 0
   \<and> ex_clock (ticks (request_used ex_clock (new_world ex_clock 0 1 60))) = 100
   \<and> fst (can_request ex_clock (request_used ex_clock (new_world ex_clock 0 1 60)))
       = Inl IndexError"
  by (simp add: can_request_def reset_def request_used_def new_world_def
      RateLimitHandler_init_def ex_clock_def Let_def)

subsection \<open>What each operation leaves of the limiter\<close>






subsection \<open>The invariant is kept\<close>












end
